theory Spec2Isabelle
  imports Complex_Main
begin

chapter \<open>The model\<close>

section \<open>Values of the script language\<close>

text \<open>
  The alignment scripts compute with JavaScript numbers. Scores are modelled as
  integers (the documented defaults are 1, -1 and -1); on integers below 2^53 the
  arithmetic of the scripts is exact. The special values the scripts use or can meet
  are kept apart from the numbers: \<open>Infinity\<close>, \<open>-Infinity\<close>, \<open>NaN\<close> (the result of
  arithmetic on \<open>undefined\<close>) and \<open>undefined\<close> itself (a read outside an array).
\<close>

datatype 'a jsnum = Num 'a | PosInfinity | NegInfinity | NaN | Undefined

text \<open>\<open>x + n\<close> for a finite number \<open>n\<close>.\<close>

fun js_plus :: "int jsnum \<Rightarrow> int \<Rightarrow> int jsnum" where
  "js_plus (Num a) n = Num (a + n)"
| "js_plus PosInfinity n = PosInfinity"
| "js_plus NegInfinity n = NegInfinity"
| "js_plus NaN n = NaN"
| "js_plus Undefined n = NaN"

text \<open>Strict equality \<open>x === y\<close>: \<open>NaN\<close> equals nothing.\<close>

fun js_eq :: "'a jsnum \<Rightarrow> 'a jsnum \<Rightarrow> bool" where
  "js_eq (Num a) (Num b) = (a = b)"
| "js_eq PosInfinity PosInfinity = True"
| "js_eq NegInfinity NegInfinity = True"
| "js_eq Undefined Undefined = True"
| "js_eq _ _ = False"

text \<open>\<open>x > y\<close>: \<open>undefined\<close> converts to \<open>NaN\<close>, and a comparison with \<open>NaN\<close> is false.\<close>

fun js_gt :: "('a::linorder) jsnum \<Rightarrow> 'a jsnum \<Rightarrow> bool" where
  "js_gt (Num a) (Num b) = (b < a)"
| "js_gt (Num a) NegInfinity = True"
| "js_gt PosInfinity (Num b) = True"
| "js_gt PosInfinity NegInfinity = True"
| "js_gt _ _ = False"

datatype error = TypeError | InvalidInput | AmbiguousTraceback

text \<open>
  \<open>TypeError\<close> is what the runtime throws on a property read of \<open>undefined\<close> and on the
  array destructuring of a value that is not iterable. \<open>InvalidInput\<close> and
  \<open>AmbiguousTraceback\<close> are the error kinds the specification names; no statement of the
  scripts throws them.
\<close>

record alignment =
  seq1_aligned :: string
  seq2_aligned :: string

section \<open>C6-Align: the score matrix\<close>

text \<open>\<open>dp[i][j] = v\<close> on a grid that has the cell.\<close>

definition set_cell :: "int list list \<Rightarrow> nat \<Rightarrow> nat \<Rightarrow> int \<Rightarrow> int list list" where
  "set_cell dp i j v = dp[i := (dp ! i)[j := v]]"

text \<open>
  The body of the inner fill loop of \<open>_buildMatrix\<close>, for \<open>1 \<le> i \<le> M\<close> and
  \<open>1 \<le> j \<le> N\<close>; every read is inside the grid and inside the two strings.
\<close>

definition fill_cell ::
  "string \<Rightarrow> string \<Rightarrow> int \<Rightarrow> int \<Rightarrow> int \<Rightarrow> nat \<Rightarrow> nat \<Rightarrow> int list list \<Rightarrow> int list list" where
  "fill_cell seq1 seq2 matchScore mismatchScore gapScore i j dp =
     (let match = dp ! (i - 1) ! (j - 1)
                  + (if seq1 ! (i - 1) = seq2 ! (j - 1) then matchScore else mismatchScore);
          gap1 = dp ! (i - 1) ! j + gapScore;
          gap2 = dp ! i ! (j - 1) + gapScore
      in set_cell dp i j (max (max (max match gap1) gap2) 0))"

text \<open>
  \<open>_buildMatrix\<close>: the grid of zeros, the first column, the first row, then the
  interior row by row. The loops are folds over their index ranges, the grid is the
  state they pass on.
\<close>

definition buildMatrix :: "string \<Rightarrow> string \<Rightarrow> int \<Rightarrow> int \<Rightarrow> int \<Rightarrow> int list list" where
  "buildMatrix seq1 seq2 matchScore mismatchScore gapScore =
     (let M = length seq1;
          N = length seq2;
          dp0 = replicate (M + 1) (replicate (N + 1) 0);
          dp1 = fold (\<lambda>i dp. set_cell dp i 0 (int i * gapScore)) [0..<M + 1] dp0;
          dp2 = fold (\<lambda>j dp. set_cell dp 0 j (int j * gapScore)) [0..<N + 1] dp1
      in fold (\<lambda>i dp. fold (fill_cell seq1 seq2 matchScore mismatchScore gapScore i) [1..<N + 1] dp)
           [1..<M + 1] dp2)"

section \<open>C6-Align: traceback\<close>

text \<open>\<open>matrix[i][j]\<close> for a row index that exists; past the end of the row it is \<open>undefined\<close>.\<close>

definition cell :: "int list list \<Rightarrow> nat \<Rightarrow> nat \<Rightarrow> int jsnum" where
  "cell matrix i j =
     (if i < length matrix \<and> j < length (matrix ! i) then Num (matrix ! i ! j) else Undefined)"

text \<open>\<open>seq[i - 1]\<close>: \<open>None\<close> is \<open>undefined\<close>, read at index -1 or past the end.\<close>

definition seq_at :: "string \<Rightarrow> nat \<Rightarrow> char option" where
  "seq_at seq i = (if 0 < i \<and> i \<le> length seq then Some (seq ! (i - 1)) else None)"

text \<open>The scan for the first cell, in row-major order, that holds the largest score.\<close>

definition scan_step ::
  "int list list \<Rightarrow> nat \<Rightarrow> nat \<Rightarrow> int jsnum \<times> nat \<times> nat \<Rightarrow> int jsnum \<times> nat \<times> nat" where
  "scan_step matrix i j st =
     (case st of (maxVal, maxI, maxJ) \<Rightarrow>
        if js_gt (cell matrix i j) maxVal then (cell matrix i j, i, j) else (maxVal, maxI, maxJ))"

definition find_max :: "int list list \<Rightarrow> int jsnum \<times> nat \<times> nat" where
  "find_max matrix =
     (let M = length matrix;
          N = length (matrix ! 0)
      in fold (\<lambda>i st. fold (scan_step matrix i) [0..<N] st) [0..<M] (NegInfinity, M - 1, N - 1))"

text \<open>The three tests of the traceback loop, in the order the loop tries them.\<close>

definition diag_step :: "string \<Rightarrow> string \<Rightarrow> int list list \<Rightarrow> int \<Rightarrow> int \<Rightarrow> nat \<Rightarrow> nat \<Rightarrow> bool" where
  "diag_step seq1 seq2 matrix matchScore mismatchScore i j =
     js_eq (cell matrix i j)
       (js_plus (if 0 < i \<and> 0 < j then cell matrix (i - 1) (j - 1) else NegInfinity)
          (if seq_at seq1 i = seq_at seq2 j then matchScore else mismatchScore))"

definition up_step :: "int list list \<Rightarrow> int \<Rightarrow> nat \<Rightarrow> nat \<Rightarrow> bool" where
  "up_step matrix gapScore i j =
     js_eq (cell matrix i j) (js_plus (if 0 < i then cell matrix (i - 1) j else NegInfinity) gapScore)"

definition left_step :: "int list list \<Rightarrow> int \<Rightarrow> nat \<Rightarrow> nat \<Rightarrow> bool" where
  "left_step matrix gapScore i j =
     js_eq (cell matrix i j) (js_plus (if 0 < j then cell matrix i (j - 1) else NegInfinity) gapScore)"

lemma cell_not_NegInfinity [simp]: "\<not> js_eq (cell matrix i j) NegInfinity"
  by (simp add: cell_def)

lemma up_step_pos: "up_step matrix gapScore i j \<Longrightarrow> 0 < i"
  by (cases "0 < i") (simp_all add: up_step_def)

lemma left_step_pos: "left_step matrix gapScore i j \<Longrightarrow> 0 < j"
  by (cases "0 < j") (simp_all add: left_step_def)

lemma diag_step_pos:
  "diag_step seq1 seq2 matrix matchScore mismatchScore i j \<Longrightarrow> 0 < i \<and> 0 < j"
  by (cases "0 < i \<and> 0 < j") (simp_all add: diag_step_def)

text \<open>
  The \<open>while (i > 0 || j > 0)\<close> loop of \<open>_traceback\<close>. The state is the two indices and
  the two arrays the loop pushes to; the result is the state the loop leaves, either
  because both indices are 0 or through \<open>break\<close>. A test that reads a cell above or to
  the left holds only where that cell exists (the three lemmas above), so an index is
  decremented only where it is positive.
\<close>

function walk ::
  "string \<Rightarrow> string \<Rightarrow> int list list \<Rightarrow> int \<Rightarrow> int \<Rightarrow> int \<Rightarrow> nat \<Rightarrow> nat
   \<Rightarrow> char option list \<Rightarrow> char option list \<Rightarrow> nat \<times> nat \<times> char option list \<times> char option list" where
  "walk seq1 seq2 matrix matchScore mismatchScore gapScore i j a1 a2 =
     (if 0 < i \<or> 0 < j then
        if diag_step seq1 seq2 matrix matchScore mismatchScore i j then
          walk seq1 seq2 matrix matchScore mismatchScore gapScore (i - 1) (j - 1)
            (a1 @ [seq_at seq1 i]) (a2 @ [seq_at seq2 j])
        else if up_step matrix gapScore i j then
          walk seq1 seq2 matrix matchScore mismatchScore gapScore (i - 1) j
            (a1 @ [seq_at seq1 i]) (a2 @ [Some CHR ''-''])
        else if left_step matrix gapScore i j then
          walk seq1 seq2 matrix matchScore mismatchScore gapScore i (j - 1)
            (a1 @ [Some CHR ''-'']) (a2 @ [seq_at seq2 j])
        else (i, j, a1, a2)
      else (i, j, a1, a2))"
  by pat_completeness auto
termination
  by (relation "measure (\<lambda>(seq1, seq2, matrix, matchScore, mismatchScore, gapScore, i, j, a1, a2). i + j)")
     (auto dest: up_step_pos left_step_pos)

declare walk.simps [simp del]

text \<open>\<open>array.join("")\<close>: an \<open>undefined\<close> element contributes the empty string.\<close>

definition join :: "char option list \<Rightarrow> string" where
  "join xs = concat (map (\<lambda>c. case c of None \<Rightarrow> [] | Some x \<Rightarrow> [x]) xs)"

text \<open>
  \<open>_traceback\<close>. With no row, \<open>matrix[0].length\<close> throws. With an empty first row the scan
  does nothing, the column index starts at -1, every read of the loop is \<open>undefined\<close>
  or \<open>-Infinity\<close>, no test holds, and the result is the pair of empty strings.
\<close>

definition traceback ::
  "string \<Rightarrow> string \<Rightarrow> int list list \<Rightarrow> int \<Rightarrow> int \<Rightarrow> int \<Rightarrow> error + alignment" where
  "traceback seq1 seq2 matrix matchScore mismatchScore gapScore =
     (if matrix = [] then Inl TypeError
      else if matrix ! 0 = [] then Inr \<lparr>seq1_aligned = [], seq2_aligned = []\<rparr>
      else
        (case find_max matrix of (maxVal, maxI, maxJ) \<Rightarrow>
           (case walk seq1 seq2 matrix matchScore mismatchScore gapScore maxI maxJ [] [] of
              (i, j, a1, a2) \<Rightarrow>
                Inr \<lparr>seq1_aligned = join (rev a1), seq2_aligned = join (rev a2)\<rparr>)))"

text \<open>
  The pairwise aligner: the matrix build followed by the traceback, as \<open>showAlignment\<close>
  runs them on its two cleaned sequences.
\<close>

definition pairwiseAlign :: "string \<Rightarrow> string \<Rightarrow> int \<Rightarrow> int \<Rightarrow> int \<Rightarrow> error + alignment" where
  "pairwiseAlign seq1 seq2 matchScore mismatchScore gapScore =
     traceback seq1 seq2 (buildMatrix seq1 seq2 matchScore mismatchScore gapScore)
       matchScore mismatchScore gapScore"

section \<open>C6-Align: the symbol track of the pairwise formatter\<close>

text \<open>\<open>seq[i]\<close>: \<open>None\<close> is \<open>undefined\<close>, read past the end of the string.\<close>

definition char_at :: "string \<Rightarrow> nat \<Rightarrow> char option" where
  "char_at seq i = (if i < length seq then Some (seq ! i) else None)"

text \<open>The body of the first loop of \<open>_formatAsArray\<close>: the symbol for one column.\<close>

definition symbol_for :: "char option \<Rightarrow> char option \<Rightarrow> char" where
  "symbol_for a b =
     (if a = b then CHR ''|''
      else if a = Some CHR ''-'' \<or> b = Some CHR ''-'' then CHR '' ''
      else CHR ''x'')"

text \<open>
  The first loop of \<open>_formatAsArray\<close>: it runs over the positions of the first aligned
  string and appends one symbol for each; the string it builds is what the function
  then cuts into lines and blocks.
\<close>

definition symbols :: "alignment \<Rightarrow> string" where
  "symbols alignment =
     (let seq1 = seq1_aligned alignment;
          seq2 = seq2_aligned alignment
      in fold (\<lambda>i syms. syms @ [symbol_for (char_at seq1 i) (char_at seq2 i)])
           [0..<length seq1] [])"

section \<open>playground: the guide tree\<close>



text \<open>A loop whose body can throw: the first error ends it.\<close>

fun fold_err :: "('a \<Rightarrow> 's \<Rightarrow> error + 's) \<Rightarrow> 'a list \<Rightarrow> 's \<Rightarrow> error + 's" where
  "fold_err f [] s = Inr s"
| "fold_err f (x # xs) s = (case f x s of Inl e \<Rightarrow> Inl e | Inr s' \<Rightarrow> fold_err f xs s')"






subsection \<open>The loop of \<open>constructGuideTree\<close>\<close>












section \<open>playground: the distance matrix\<close>

text \<open>
  What \<open>calculateDistanceFromAlignment\<close> can be handed as its \<open>alignment\<close>: the object
  \<open>_traceback\<close> returns, with its two named fields, or an array of strings.
\<close>

datatype alignment_value = AlignmentObject alignment | StringArray "string list"

text \<open>
  The body of the loop of \<open>calculateDistanceFromAlignment\<close> at position \<open>i\<close> of the first
  string. \<open>alignedSeq2\<close> is \<open>None\<close> when the array has no second element; the read
  \<open>alignedSeq2[i]\<close> then throws, unless the first test of the \<open>||\<close> already holds.
\<close>

definition distance_step ::
  "string \<Rightarrow> string option \<Rightarrow> int \<Rightarrow> int \<Rightarrow> int \<Rightarrow> nat \<Rightarrow> int \<Rightarrow> error + int" where
  "distance_step alignedSeq1 alignedSeq2 matchScore mismatchScore gapScore i distance =
     (if char_at alignedSeq1 i = Some CHR ''-'' then Inr (distance + gapScore)
      else case alignedSeq2 of
        None \<Rightarrow> Inl TypeError
      | Some s2 \<Rightarrow>
          if char_at s2 i = Some CHR ''-'' then Inr (distance + gapScore)
          else if char_at alignedSeq1 i \<noteq> char_at s2 i then Inr (distance + mismatchScore)
          else Inr (distance + matchScore))"

text \<open>
  \<open>calculateDistanceFromAlignment\<close>. Its first statement destructures \<open>alignment\<close> as an
  array, \<open>const [alignedSeq1, alignedSeq2] = alignment\<close>: on an object that is not iterable
  this throws a TypeError; on an array it takes the first two elements, and the read of
  \<open>alignedSeq1.length\<close> throws when there is none.
\<close>

definition calculateDistanceFromAlignment ::
  "alignment_value \<Rightarrow> int \<Rightarrow> int \<Rightarrow> int \<Rightarrow> error + int" where
  "calculateDistanceFromAlignment alignment matchScore mismatchScore gapScore =
     (case alignment of
        AlignmentObject obj \<Rightarrow> Inl TypeError
      | StringArray [] \<Rightarrow> Inl TypeError
      | StringArray (alignedSeq1 # rest) \<Rightarrow>
          fold_err
            (distance_step alignedSeq1 (case rest of [] \<Rightarrow> None | alignedSeq2 # _ \<Rightarrow> Some alignedSeq2)
               matchScore mismatchScore gapScore)
            [0..<length alignedSeq1] 0)"

text \<open>
  The body of the inner loop of \<open>calculateDistanceMatrix\<close> for the pair \<open>i < j\<close>: the two
  sequences are aligned, the object \<open>_traceback\<close> returns is handed on as it is, and the
  distance is stored in both triangles of the matrix. The loops keep \<open>i\<close> and \<open>j\<close> below
  the number of sequences, so every read and write is inside its array.
\<close>

definition distance_entry ::
  "string list \<Rightarrow> int \<Rightarrow> int \<Rightarrow> int \<Rightarrow> nat \<Rightarrow> nat \<Rightarrow> int list list \<Rightarrow> error + int list list" where
  "distance_entry sequences matchScore mismatchScore gapScore i j distanceMatrix =
     (let seq1 = sequences ! i;
          seq2 = sequences ! j;
          matrix = buildMatrix seq1 seq2 matchScore mismatchScore gapScore
      in case traceback seq1 seq2 matrix matchScore mismatchScore gapScore of
           Inl e \<Rightarrow> Inl e
         | Inr alignment \<Rightarrow>
             (case calculateDistanceFromAlignment (AlignmentObject alignment)
                     matchScore mismatchScore gapScore of
                Inl e \<Rightarrow> Inl e
              | Inr distance \<Rightarrow>
                  Inr (set_cell (set_cell distanceMatrix i j distance) j i distance)))"

definition calculateDistanceMatrix ::
  "string list \<Rightarrow> int \<Rightarrow> int \<Rightarrow> int \<Rightarrow> error + int list list" where
  "calculateDistanceMatrix sequences matchScore mismatchScore gapScore =
     (let numSequences = length sequences
      in fold_err
           (\<lambda>i dm. fold_err (distance_entry sequences matchScore mismatchScore gapScore i)
                      [i + 1..<numSequences] dm)
           [0..<numSequences] (replicate numSequences (replicate numSequences 0)))"

chapter \<open>Facts about the model\<close>

section \<open>The score matrix as a recurrence\<close>

text \<open>
  The recurrence of section 4.1 of the specification, as a function of the cell: the
  boundary is linear in the gap score, the interior is floored at 0. It is compared
  below with the grid \<open>buildMatrix\<close> computes.
\<close>

fun score :: "string \<Rightarrow> string \<Rightarrow> int \<Rightarrow> int \<Rightarrow> int \<Rightarrow> nat \<Rightarrow> nat \<Rightarrow> int" where
  "score seq1 seq2 matchScore mismatchScore gapScore 0 j = int j * gapScore"
| "score seq1 seq2 matchScore mismatchScore gapScore (Suc i) 0 = int (Suc i) * gapScore"
| "score seq1 seq2 matchScore mismatchScore gapScore (Suc i) (Suc j) =
     max (max (max (score seq1 seq2 matchScore mismatchScore gapScore i j
                    + (if seq1 ! i = seq2 ! j then matchScore else mismatchScore))
               (score seq1 seq2 matchScore mismatchScore gapScore i (Suc j) + gapScore))
          (score seq1 seq2 matchScore mismatchScore gapScore (Suc i) j + gapScore)) 0"

text \<open>A grid of \<open>M + 1\<close> rows and \<open>N + 1\<close> columns, given by its cells.\<close>

definition grid :: "(nat \<Rightarrow> nat \<Rightarrow> int) \<Rightarrow> nat \<Rightarrow> nat \<Rightarrow> int list list" where
  "grid f M N = map (\<lambda>i. map (f i) [0..<N + 1]) [0..<M + 1]"

lemma grid_nth: "i \<le> M \<Longrightarrow> j \<le> N \<Longrightarrow> grid f M N ! i ! j = f i j"
  unfolding grid_def
  by (simp add: nth_map_upt less_Suc_eq_le del: upt_Suc)

lemma grid_length: "length (grid f M N) = M + 1"
  by (simp add: grid_def)

lemma grid_row_length: "i \<le> M \<Longrightarrow> length (grid f M N ! i) = N + 1"
  unfolding grid_def by (simp add: less_Suc_eq_le del: upt_Suc)

lemma grid_cong: "(\<And>i j. i \<le> M \<Longrightarrow> j \<le> N \<Longrightarrow> f i j = f' i j) \<Longrightarrow> grid f M N = grid f' M N"
  unfolding grid_def by (auto simp del: upt_Suc)

lemma set_cell_grid:
  assumes "i \<le> M" "j \<le> N"
  shows "set_cell (grid f M N) i j v = grid (f(i := (f i)(j := v))) M N"
proof (rule nth_equalityI)
  show "length (set_cell (grid f M N) i j v) = length (grid (f(i := (f i)(j := v))) M N)"
    by (simp add: set_cell_def grid_length)
next
  fix a assume "a < length (set_cell (grid f M N) i j v)"
  then have a: "a \<le> M" by (simp add: set_cell_def grid_length)
  show "set_cell (grid f M N) i j v ! a = grid (f(i := (f i)(j := v))) M N ! a"
  proof (rule nth_equalityI)
    show "length (set_cell (grid f M N) i j v ! a) = length (grid (f(i := (f i)(j := v))) M N ! a)"
      using a assms by (simp add: set_cell_def grid_length grid_row_length nth_list_update)
  next
    fix b assume "b < length (set_cell (grid f M N) i j v ! a)"
    then have b: "b \<le> N"
      using a assms by (simp add: set_cell_def grid_length grid_row_length nth_list_update split: if_splits)
    show "set_cell (grid f M N) i j v ! a ! b = grid (f(i := (f i)(j := v))) M N ! a ! b"
      using a b assms
      by (simp add: set_cell_def grid_length grid_row_length grid_nth nth_list_update)
  qed
qed

lemma replicate_grid: "replicate (M + 1) (replicate (N + 1) 0) = grid (\<lambda>i j. 0) M N"
  unfolding grid_def by (simp add: map_replicate_const del: upt_Suc replicate_Suc)

lemma first_column_loop:
  "k \<le> M + 1 \<Longrightarrow>
   fold (\<lambda>i dp. set_cell dp i 0 (int i * g)) [0..<k] (grid f M N)
   = grid (\<lambda>i j. if i < k \<and> j = 0 then int i * g else f i j) M N"
proof (induction k)
  case 0
  show ?case by simp
next
  case (Suc k)
  then have "k \<le> M" by simp
  then show ?case using Suc
    by (simp add: set_cell_grid) (rule grid_cong, auto)
qed

lemma first_row_loop:
  "k \<le> N + 1 \<Longrightarrow>
   fold (\<lambda>j dp. set_cell dp 0 j (int j * g)) [0..<k] (grid f M N)
   = grid (\<lambda>i j. if i = 0 \<and> j < k then int j * g else f i j) M N"
proof (induction k)
  case 0
  show ?case by simp
next
  case (Suc k)
  then have "k \<le> N" by simp
  then show ?case using Suc
    by (simp add: set_cell_grid) (rule grid_cong, auto)
qed

lemma fill_cell_grid:
  assumes "1 \<le> i" "i \<le> M" "1 \<le> j" "j \<le> N"
  shows "fill_cell s1 s2 m mm g i j (grid f M N)
         = grid (f(i := (f i)(j := max (max (max (f (i - 1) (j - 1) + (if s1 ! (i - 1) = s2 ! (j - 1) then m else mm))
                                                 (f (i - 1) j + g)) (f i (j - 1) + g)) 0))) M N"
  using assms by (simp add: fill_cell_def Let_def grid_nth set_cell_grid)

lemma fill_row_loop:
  assumes "1 \<le> i" "i \<le> M"
    and "\<And>b. b \<le> N \<Longrightarrow> f (i - 1) b = score s1 s2 m mm g (i - 1) b"
    and "f i 0 = score s1 s2 m mm g i 0"
  shows "l \<le> N + 1 \<Longrightarrow>
     fold (fill_cell s1 s2 m mm g i) [1..<l] (grid f M N)
     = grid (\<lambda>a b. if a = i \<and> 1 \<le> b \<and> b < l then score s1 s2 m mm g a b else f a b) M N"
proof (induction l)
  case 0
  show ?case by simp
next
  case (Suc l)
  show ?case
  proof (cases "l = 0")
    case True
    then show ?thesis by (auto intro: grid_cong)
  next
    case False
    then have l: "1 \<le> l" "l \<le> N" using Suc.prems by simp_all
    obtain i' where i': "i = Suc i'" using assms(1) by (cases i) simp_all
    obtain l' where l': "l = Suc l'" using l(1) by (cases l) simp_all
    let ?f = "\<lambda>a b. if a = i \<and> 1 \<le> b \<and> b < l then score s1 s2 m mm g a b else f a b"
    have IH: "fold (fill_cell s1 s2 m mm g i) [1..<l] (grid f M N) = grid ?f M N"
      using Suc.IH l by simp
    have up: "[1..<Suc l] = [1..<l] @ [l]" using l by simp
    have d: "?f (i - 1) (l - 1) = score s1 s2 m mm g i' l'"
      using assms(3)[of l'] l i' l' by simp
    have u: "?f (i - 1) l = score s1 s2 m mm g i' l"
      using assms(3)[of l] l i' by simp
    have le: "?f i (l - 1) = score s1 s2 m mm g i l'"
      using assms(4) l' by (cases "l' = 0") simp_all
    show ?thesis
      unfolding up fold_append comp_def IH
      apply (simp only: fold.simps comp_def id_def fill_cell_grid[OF assms(1,2) l] d u le)
      apply (rule grid_cong)
      using i' l' by (auto simp: less_Suc_eq)
  qed
qed

lemma fill_loop:
  assumes "\<And>b. b \<le> N \<Longrightarrow> f 0 b = score s1 s2 m mm g 0 b"
    and "\<And>a. a \<le> M \<Longrightarrow> f a 0 = score s1 s2 m mm g a 0"
  shows "k \<le> M + 1 \<Longrightarrow>
     fold (\<lambda>i dp. fold (fill_cell s1 s2 m mm g i) [1..<N + 1] dp) [1..<k] (grid f M N)
     = grid (\<lambda>a b. if 1 \<le> a \<and> a < k \<and> 1 \<le> b then score s1 s2 m mm g a b else f a b) M N"
proof (induction k)
  case 0
  show ?case by simp
next
  case (Suc k)
  show ?case
  proof (cases "k = 0")
    case True
    then show ?thesis by (auto intro: grid_cong)
  next
    case False
    then have k: "1 \<le> k" "k \<le> M" using Suc.prems by simp_all
    let ?f = "\<lambda>a b. if 1 \<le> a \<and> a < k \<and> 1 \<le> b then score s1 s2 m mm g a b else f a b"
    have IH: "fold (\<lambda>i dp. fold (fill_cell s1 s2 m mm g i) [1..<N + 1] dp) [1..<k] (grid f M N)
              = grid ?f M N"
      using Suc.IH k by simp
    have up: "[1..<Suc k] = [1..<k] @ [k]" using k by simp
    have prev: "?f (k - 1) b = score s1 s2 m mm g (k - 1) b" if "b \<le> N" for b
      using that assms(1)[of b] assms(2)[of "k - 1"] k by (cases "b = 0") auto
    have first: "?f k 0 = score s1 s2 m mm g k 0"
      using assms(2)[of k] k by simp
    have row: "fold (fill_cell s1 s2 m mm g k) [1..<N + 1] (grid ?f M N)
       = grid (\<lambda>a b. if a = k \<and> 1 \<le> b \<and> b < N + 1 then score s1 s2 m mm g a b else ?f a b) M N"
      by (rule fill_row_loop[OF k prev first]) simp_all
    show ?thesis
      unfolding up fold_append comp_def IH
      apply (simp only: fold.simps comp_def id_def row)
      apply (rule grid_cong)
      using k by (auto simp: less_Suc_eq)
  qed
qed

lemma buildMatrix_grid:
  "buildMatrix s1 s2 m mm g = grid (score s1 s2 m mm g) (length s1) (length s2)"
proof -
  let ?M = "length s1" and ?N = "length s2"
  let ?f1 = "\<lambda>i j. if i < ?M + 1 \<and> j = 0 then int i * g else (0::int)"
  let ?f2 = "\<lambda>i j. if i = 0 \<and> j < ?N + 1 then int j * g else ?f1 i j"
  have row0: "?f2 0 b = score s1 s2 m mm g 0 b" if "b \<le> ?N" for b
    using that by simp
  have col0: "?f2 a 0 = score s1 s2 m mm g a 0" if "a \<le> ?M" for a
    using that by (cases a) simp_all
  have "buildMatrix s1 s2 m mm g
        = fold (\<lambda>i dp. fold (fill_cell s1 s2 m mm g i) [1..<?N + 1] dp) [1..<?M + 1] (grid ?f2 ?M ?N)"
    unfolding buildMatrix_def Let_def replicate_grid
    by (simp only: first_column_loop[OF order_refl] first_row_loop[OF order_refl])
  also have "\<dots> = grid (\<lambda>a b. if 1 \<le> a \<and> a < ?M + 1 \<and> 1 \<le> b then score s1 s2 m mm g a b else ?f2 a b) ?M ?N"
    by (rule fill_loop[OF row0 col0]) simp_all
  also have "\<dots> = grid (score s1 s2 m mm g) ?M ?N"
  proof (rule grid_cong)
    fix i j assume "i \<le> ?M" "j \<le> ?N"
    then show "(if 1 \<le> i \<and> i < ?M + 1 \<and> 1 \<le> j then score s1 s2 m mm g i j else ?f2 i j)
               = score s1 s2 m mm g i j"
      by (cases i; cases j) simp_all
  qed
  finally show ?thesis .
qed

section \<open>Facts about the matrix and the traceback\<close>

lemma buildMatrix_length: "length (buildMatrix s1 s2 m mm g) = length s1 + 1"
  by (simp add: buildMatrix_grid grid_length)

lemma buildMatrix_row_length:
  "i \<le> length s1 \<Longrightarrow> length (buildMatrix s1 s2 m mm g ! i) = length s2 + 1"
  by (simp add: buildMatrix_grid grid_row_length)

lemma buildMatrix_nth:
  "i \<le> length s1 \<Longrightarrow> j \<le> length s2 \<Longrightarrow> buildMatrix s1 s2 m mm g ! i ! j = score s1 s2 m mm g i j"
  by (simp add: buildMatrix_grid grid_nth)

lemma buildMatrix_not_empty: "buildMatrix s1 s2 m mm g \<noteq> []" "buildMatrix s1 s2 m mm g ! 0 \<noteq> []"
  using buildMatrix_length[of s1 s2 m mm g] buildMatrix_row_length[of 0 s1 s2 m mm g]
  by auto

lemma cell_buildMatrix:
  "i \<le> length s1 \<Longrightarrow> j \<le> length s2 \<Longrightarrow>
   cell (buildMatrix s1 s2 m mm g) i j = Num (score s1 s2 m mm g i j)"
  by (simp add: cell_def buildMatrix_length buildMatrix_row_length buildMatrix_nth)



lemma pairwiseAlign_unfold:
  "pairwiseAlign s1 s2 m mm g =
     (case find_max (buildMatrix s1 s2 m mm g) of (maxVal, maxI, maxJ) \<Rightarrow>
        (case walk s1 s2 (buildMatrix s1 s2 m mm g) m mm g maxI maxJ [] [] of
           (i, j, a1, a2) \<Rightarrow> Inr \<lparr>seq1_aligned = join (rev a1), seq2_aligned = join (rev a2)\<rparr>))"
  by (simp add: pairwiseAlign_def traceback_def buildMatrix_not_empty)


lemma walk_stop: "walk s1 s2 mat m mm g 0 0 a1 a2 = (0, 0, a1, a2)"
  by (simp add: walk.simps[of _ _ _ _ _ _ 0 0])

lemma walk_diag:
  "diag_step s1 s2 mat m mm i j \<Longrightarrow>
   walk s1 s2 mat m mm g i j a1 a2
   = walk s1 s2 mat m mm g (i - 1) (j - 1) (a1 @ [seq_at s1 i]) (a2 @ [seq_at s2 j])"
  using diag_step_pos[of s1 s2 mat m mm i j] by (simp add: walk.simps[of _ _ _ _ _ _ i j])






lemma fold_nested_flat:
  "fold (\<lambda>i st. fold (f i) (ys i) st) xs s
   = fold (\<lambda>p st. f (fst p) (snd p) st) (concat (map (\<lambda>i. map (Pair i) (ys i)) xs)) s"
proof (induction xs arbitrary: s)
  case Nil
  show ?case by simp
next
  case (Cons x xs)
  have "fold (\<lambda>p st. f (fst p) (snd p) st) (map (Pair x) (ys x)) s = fold (f x) (ys x) s"
    by (simp add: fold_map comp_def)
  then show ?case using Cons.IH by simp
qed

text \<open>A scan that keeps the first strictly largest key.\<close>

lemma scan_first_max:
  fixes key :: "'p \<Rightarrow> int"
  assumes "\<And>p st. p \<in> set ps \<Longrightarrow> step p st = (if js_gt (Num (key p)) (fst st) then (Num (key p), p) else st)"
  shows "(ps = [] \<and> fold step ps (NegInfinity, p0) = (NegInfinity, p0))
       \<or> (\<exists>us p vs. ps = us @ p # vs \<and> fold step ps (NegInfinity, p0) = (Num (key p), p)
            \<and> (\<forall>u\<in>set us. key u < key p) \<and> (\<forall>v\<in>set vs. key v \<le> key p))"
  using assms
proof (induction ps rule: rev_induct)
  case Nil
  show ?case by simp
next
  case (snoc x xs)
  have st: "step x st = (if js_gt (Num (key x)) (fst st) then (Num (key x), x) else st)" for st
    using snoc.prems by simp
  have IH: "(xs = [] \<and> fold step xs (NegInfinity, p0) = (NegInfinity, p0))
       \<or> (\<exists>us p vs. xs = us @ p # vs \<and> fold step xs (NegInfinity, p0) = (Num (key p), p)
            \<and> (\<forall>u\<in>set us. key u < key p) \<and> (\<forall>v\<in>set vs. key v \<le> key p))"
    using snoc.IH snoc.prems by simp
  then show ?case
  proof
    assume "xs = [] \<and> fold step xs (NegInfinity, p0) = (NegInfinity, p0)"
    then have "xs @ [x] = [] @ x # [] \<and> fold step (xs @ [x]) (NegInfinity, p0) = (Num (key x), x)
            \<and> (\<forall>u\<in>set ([]::'p list). key u < key x) \<and> (\<forall>v\<in>set ([]::'p list). key v \<le> key x)"
      by (simp add: st)
    then show ?thesis by (intro disjI2 exI)
  next
    assume "\<exists>us p vs. xs = us @ p # vs \<and> fold step xs (NegInfinity, p0) = (Num (key p), p)
            \<and> (\<forall>u\<in>set us. key u < key p) \<and> (\<forall>v\<in>set vs. key v \<le> key p)"
    then obtain us p vs where xs: "xs = us @ p # vs"
      and r: "fold step xs (NegInfinity, p0) = (Num (key p), p)"
      and lt: "\<forall>u\<in>set us. key u < key p" and le: "\<forall>v\<in>set vs. key v \<le> key p"
      by blast
    show ?thesis
    proof (cases "key p < key x")
      case True
      have "xs @ [x] = xs @ x # []" by simp
      moreover have "fold step (xs @ [x]) (NegInfinity, p0) = (Num (key x), x)"
        using r True by (simp add: st)
      moreover have "\<forall>u\<in>set xs. key u < key x"
        using lt le True xs by auto
      ultimately have "xs @ [x] = xs @ x # [] \<and> fold step (xs @ [x]) (NegInfinity, p0) = (Num (key x), x)
            \<and> (\<forall>u\<in>set xs. key u < key x) \<and> (\<forall>v\<in>set ([]::'p list). key v \<le> key x)"
        by simp
      then show ?thesis by (intro disjI2 exI)
    next
      case False
      have "xs @ [x] = us @ p # (vs @ [x])" using xs by simp
      moreover have "fold step (xs @ [x]) (NegInfinity, p0) = (Num (key p), p)"
        using r False by (simp add: st)
      moreover have "\<forall>v\<in>set (vs @ [x]). key v \<le> key p"
        using le False by auto
      ultimately have "xs @ [x] = us @ p # (vs @ [x]) \<and> fold step (xs @ [x]) (NegInfinity, p0) = (Num (key p), p)
            \<and> (\<forall>u\<in>set us. key u < key p) \<and> (\<forall>v\<in>set (vs @ [x]). key v \<le> key p)"
        using lt by simp
      then show ?thesis by (intro disjI2 exI)
    qed
  qed
qed

definition cells :: "nat \<Rightarrow> nat \<Rightarrow> (nat \<times> nat) list" where
  "cells M N = concat (map (\<lambda>i. map (Pair i) [0..<N]) [0..<M])"

lemma set_cells: "set (cells M N) = {p. fst p < M \<and> snd p < N}"
  by (auto simp: cells_def)

lemma cells_first: "cells (Suc M) (Suc N) = (0, 0) # tl (cells (Suc M) (Suc N))"
  by (simp add: cells_def upt_rec[of 0])

lemma find_max_cells:
  "find_max matrix
   = fold (\<lambda>p st. scan_step matrix (fst p) (snd p) st) (cells (length matrix) (length (matrix ! 0)))
       (NegInfinity, length matrix - 1, length (matrix ! 0) - 1)"
  by (simp add: find_max_def Let_def cells_def fold_nested_flat)

lemma find_max_buildMatrix:
  "\<exists>us p vs. cells (length s1 + 1) (length s2 + 1) = us @ p # vs
     \<and> find_max (buildMatrix s1 s2 m mm g) = (Num (score s1 s2 m mm g (fst p) (snd p)), p)
     \<and> (\<forall>u\<in>set us. score s1 s2 m mm g (fst u) (snd u) < score s1 s2 m mm g (fst p) (snd p))
     \<and> (\<forall>v\<in>set vs. score s1 s2 m mm g (fst v) (snd v) \<le> score s1 s2 m mm g (fst p) (snd p))"
proof -
  let ?B = "buildMatrix s1 s2 m mm g"
  let ?key = "\<lambda>p. score s1 s2 m mm g (fst p) (snd p)"
  let ?step = "\<lambda>p st. scan_step ?B (fst p) (snd p) st"
  let ?cs = "cells (length s1 + 1) (length s2 + 1)"
  let ?p0 = "(length s1, length s2)"
  have step: "?step p st = (if js_gt (Num (?key p)) (fst st) then (Num (?key p), p) else st)"
    if "p \<in> set ?cs" for p st
  proof -
    have "fst p \<le> length s1" "snd p \<le> length s2" using that by (auto simp: set_cells)
    then have "cell ?B (fst p) (snd p) = Num (?key p)" by (rule cell_buildMatrix)
    then show ?thesis by (cases st) (simp add: scan_step_def)
  qed
  have fm: "find_max ?B = fold ?step ?cs (NegInfinity, ?p0)"
    by (simp add: find_max_cells buildMatrix_length buildMatrix_row_length)
  have "(0, 0) \<in> set ?cs" by (simp add: set_cells)
  then have ne: "?cs \<noteq> []" by auto
  from scan_first_max[of ?cs ?step ?key ?p0, OF step] ne
  show ?thesis unfolding fm by simp
qed

lemma find_max_origin:
  assumes "\<And>i j. i \<le> length s1 \<Longrightarrow> j \<le> length s2 \<Longrightarrow> score s1 s2 m mm g i j \<le> 0"
  shows "find_max (buildMatrix s1 s2 m mm g) = (Num 0, 0, 0)"
proof -
  obtain us p vs where c: "cells (length s1 + 1) (length s2 + 1) = us @ p # vs"
    and r: "find_max (buildMatrix s1 s2 m mm g) = (Num (score s1 s2 m mm g (fst p) (snd p)), p)"
    and lt: "\<forall>u\<in>set us. score s1 s2 m mm g (fst u) (snd u) < score s1 s2 m mm g (fst p) (snd p)"
    using find_max_buildMatrix[of s1 s2 m mm g] by blast
  have "p \<in> set (cells (length s1 + 1) (length s2 + 1))" using c by simp
  then have p: "fst p \<le> length s1" "snd p \<le> length s2" by (auto simp: set_cells)
  have "us = []"
  proof (rule ccontr)
    assume "us \<noteq> []"
    then have "hd us = (0, 0)" using c cells_first[of "length s1" "length s2"]
      by (cases us) simp_all
    then have "(0, 0) \<in> set us" using \<open>us \<noteq> []\<close> by (metis hd_in_set)
    then have "score s1 s2 m mm g 0 0 < score s1 s2 m mm g (fst p) (snd p)" using lt by force
    then show False using assms[OF p] by simp
  qed
  then have "p = (0, 0)" using c cells_first[of "length s1" "length s2"] by simp
  then show ?thesis using r by simp
qed

lemma find_max_last:
  assumes "\<And>i j. i \<le> length s1 \<Longrightarrow> j \<le> length s2 \<Longrightarrow> (i, j) \<noteq> (length s1, length s2) \<Longrightarrow>
             score s1 s2 m mm g i j < score s1 s2 m mm g (length s1) (length s2)"
  shows "find_max (buildMatrix s1 s2 m mm g)
         = (Num (score s1 s2 m mm g (length s1) (length s2)), length s1, length s2)"
proof -
  obtain us p vs where c: "cells (length s1 + 1) (length s2 + 1) = us @ p # vs"
    and r: "find_max (buildMatrix s1 s2 m mm g) = (Num (score s1 s2 m mm g (fst p) (snd p)), p)"
    and lt: "\<forall>u\<in>set us. score s1 s2 m mm g (fst u) (snd u) < score s1 s2 m mm g (fst p) (snd p)"
    and le: "\<forall>v\<in>set vs. score s1 s2 m mm g (fst v) (snd v) \<le> score s1 s2 m mm g (fst p) (snd p)"
    using find_max_buildMatrix[of s1 s2 m mm g] by blast
  have pin: "p \<in> set (cells (length s1 + 1) (length s2 + 1))" using c by simp
  then have p: "fst p \<le> length s1" "snd p \<le> length s2" by (auto simp: set_cells)
  have "(length s1, length s2) \<in> set (cells (length s1 + 1) (length s2 + 1))"
    by (simp add: set_cells)
  then have "(length s1, length s2) \<in> set us \<or> (length s1, length s2) = p \<or> (length s1, length s2) \<in> set vs"
    unfolding c by auto
  then have "score s1 s2 m mm g (length s1) (length s2) \<le> score s1 s2 m mm g (fst p) (snd p)"
    using lt le by force
  then have "p = (length s1, length s2)"
    using assms[OF p] by (cases p) force
  then show ?thesis using r by simp
qed

lemma join_map_Some [simp]: "join (map Some xs) = xs"
  by (induction xs) (simp_all add: join_def)

lemma score_interior_le:
  assumes "a + x \<le> b" "u + g \<le> b" "l + g \<le> b" "(0::int) \<le> b"
  shows "max (max (max (a + x) (u + g)) (l + g)) 0 \<le> b"
  using assms by simp

lemma score_le_min: "score s1 s2 1 (- 1) (- 1) i j \<le> int (min i j)"
proof (induction s1 s2 "1::int" "- 1::int" "- 1::int" i j rule: score.induct)
  case (1 seq1 seq2 j)
  show ?case by simp
next
  case (2 seq1 seq2 i)
  show ?case by simp
next
  case (3 seq1 seq2 i j)
  have a: "score seq1 seq2 1 (- 1) (- 1) i j + (if seq1 ! i = seq2 ! j then 1 else - 1) \<le> int (min (Suc i) (Suc j))"
    using "3.hyps"(1) by (simp split: if_splits)
  have u: "score seq1 seq2 1 (- 1) (- 1) i (Suc j) + (- 1) \<le> int (min (Suc i) (Suc j))"
    using "3.hyps"(2) by simp
  have l: "score seq1 seq2 1 (- 1) (- 1) (Suc i) j + (- 1) \<le> int (min (Suc i) (Suc j))"
    using "3.hyps"(3) by simp
  show ?case
    unfolding score.simps by (rule score_interior_le[OF a u l]) simp
qed

lemma score_ge_diag:
  "score s1 s2 m mm g i j + (if s1 ! i = s2 ! j then m else mm) \<le> score s1 s2 m mm g (Suc i) (Suc j)"
  by simp

lemma score_diag: "k \<le> length s \<Longrightarrow> score s s 1 (- 1) (- 1) k k = int k"
proof (induction k)
  case 0
  show ?case by simp
next
  case (Suc k)
  then have "score s s 1 (- 1) (- 1) k k = int k" by simp
  then have "int (Suc k) \<le> score s s 1 (- 1) (- 1) (Suc k) (Suc k)"
    using score_ge_diag[of s s 1 "- 1" "- 1" k k] by (simp del: score.simps)
  moreover have "score s s 1 (- 1) (- 1) (Suc k) (Suc k) \<le> int (Suc k)"
    using score_le_min[of s s "Suc k" "Suc k"] by (simp del: score.simps)
  ultimately show ?case by (simp del: score.simps)
qed

lemma walk_self:
  "k \<le> length s \<Longrightarrow>
   walk s s (buildMatrix s s 1 (- 1) (- 1)) 1 (- 1) (- 1) k k a1 a2
   = (0, 0, a1 @ map Some (rev (take k s)), a2 @ map Some (rev (take k s)))"
proof (induction k arbitrary: a1 a2)
  case 0
  show ?case by (simp add: walk_stop)
next
  case (Suc k)
  then have k: "k < length s" by simp
  have "diag_step s s (buildMatrix s s 1 (- 1) (- 1)) 1 (- 1) (Suc k) (Suc k)"
    using Suc.prems by (simp add: diag_step_def cell_buildMatrix score_diag del: score.simps)
  then have "walk s s (buildMatrix s s 1 (- 1) (- 1)) 1 (- 1) (- 1) (Suc k) (Suc k) a1 a2
     = walk s s (buildMatrix s s 1 (- 1) (- 1)) 1 (- 1) (- 1) k k
         (a1 @ [seq_at s (Suc k)]) (a2 @ [seq_at s (Suc k)])"
    by (simp add: walk_diag)
  also have "\<dots> = (0, 0, (a1 @ [seq_at s (Suc k)]) @ map Some (rev (take k s)),
                     (a2 @ [seq_at s (Suc k)]) @ map Some (rev (take k s)))"
    using Suc.IH[of "a1 @ [seq_at s (Suc k)]" "a2 @ [seq_at s (Suc k)]"] k by simp
  also have "seq_at s (Suc k) = Some (s ! k)" using k by (simp add: seq_at_def)
  finally show ?case using k by (simp add: take_Suc_conv_app_nth)
qed

lemma score_boundary_nonpos:
  assumes "seq1 = [] \<or> seq2 = []" and "gapScore \<le> 0"
    and "i \<le> length seq1" and "j \<le> length seq2"
  shows "score seq1 seq2 matchScore mismatchScore gapScore i j \<le> 0"
proof -
  have "i = 0 \<or> j = 0" using assms by auto
  then show ?thesis
  proof
    assume "i = 0"
    then show ?thesis using assms(2) by (simp add: mult_nonneg_nonpos)
  next
    assume "j = 0"
    then show ?thesis using assms(2) by (cases i) (simp_all add: mult_nonneg_nonpos)
  qed
qed







section \<open>Facts about the symbol track\<close>

lemma fold_append_map: "fold (\<lambda>i acc. acc @ [f i]) xs ys = ys @ map f xs"
  by (induction xs arbitrary: ys) simp_all

lemma symbols_map:
  "symbols alignment
   = map (\<lambda>i. symbol_for (char_at (seq1_aligned alignment) i) (char_at (seq2_aligned alignment) i))
       [0..<length (seq1_aligned alignment)]"
  by (simp add: symbols_def Let_def fold_append_map)

section \<open>Facts about the guide tree\<close>




















chapter \<open>The claims\<close>

section \<open>Claims on the pairwise aligner\<close>

text \<open>
  C1. The claim: the two strings the pairwise aligner returns have equal length, and the
  length is at least the length of the longer input. The traceback starts at the first
  largest cell and stops where no test holds, so the returned alignment can leave out
  symbols of both inputs. On \<open>A\<close> against \<open>C\<close> with scores 1, -1, -1 it is the pair of
  empty strings, of length 0.
\<close>

theorem pairwiseAlign_A_C_empty:
  "pairwiseAlign ''A'' ''C'' 1 (- 1) (- 1) = Inr \<lparr>seq1_aligned = [], seq2_aligned = []\<rparr>"
  by code_simp

text \<open>The example of the header comment of \<open>showAlignment\<close> aligns one symbol of ten.\<close>

lemma pairwiseAlign_header_example:
  "pairwiseAlign ''ATGGATGATG'' ''CTTCTCCTCG'' 1 (- 1) (- 1)
   = Inr \<lparr>seq1_aligned = ''T'', seq2_aligned = ''T''\<rparr>"
  by code_simp

text \<open>
  C2. The matrix \<open>_buildMatrix\<close> returns has \<open>|seq1| + 1\<close> rows of \<open>|seq2| + 1\<close> cells; its
  first column holds \<open>i * gap\<close>, its first row \<open>j * gap\<close>, and every interior cell is the
  largest of the diagonal, upper and left candidates and 0.
\<close>

theorem buildMatrix_recurrence:
  assumes "i \<le> length seq1" and "j \<le> length seq2"
  shows "length (buildMatrix seq1 seq2 matchScore mismatchScore gapScore) = length seq1 + 1
    \<and> length (buildMatrix seq1 seq2 matchScore mismatchScore gapScore ! i) = length seq2 + 1
    \<and> buildMatrix seq1 seq2 matchScore mismatchScore gapScore ! i ! 0 = int i * gapScore
    \<and> buildMatrix seq1 seq2 matchScore mismatchScore gapScore ! 0 ! j = int j * gapScore
    \<and> (1 \<le> i \<and> 1 \<le> j \<longrightarrow>
         buildMatrix seq1 seq2 matchScore mismatchScore gapScore ! i ! j
         = max (max (max (buildMatrix seq1 seq2 matchScore mismatchScore gapScore ! (i - 1) ! (j - 1)
                          + (if seq1 ! (i - 1) = seq2 ! (j - 1) then matchScore else mismatchScore))
                         (buildMatrix seq1 seq2 matchScore mismatchScore gapScore ! (i - 1) ! j + gapScore))
                    (buildMatrix seq1 seq2 matchScore mismatchScore gapScore ! i ! (j - 1) + gapScore))
               0)"
proof -
  let ?B = "buildMatrix seq1 seq2 matchScore mismatchScore gapScore"
  let ?sc = "score seq1 seq2 matchScore mismatchScore gapScore"
  have col: "?B ! i ! 0 = int i * gapScore"
    using assms by (cases i) (simp_all add: buildMatrix_nth)
  have row: "?B ! 0 ! j = int j * gapScore"
    using assms by (simp add: buildMatrix_nth)
  have inner: "?B ! i ! j
         = max (max (max (?B ! (i - 1) ! (j - 1)
                          + (if seq1 ! (i - 1) = seq2 ! (j - 1) then matchScore else mismatchScore))
                         (?B ! (i - 1) ! j + gapScore))
                    (?B ! i ! (j - 1) + gapScore)) 0"
    if pi: "1 \<le> i" and pj: "1 \<le> j"
  proof -
    obtain i' where i': "i = Suc i'" using pi by (cases i) simp_all
    obtain j' where j': "j = Suc j'" using pj by (cases j) simp_all
    note ij = i' j'
    have "?B ! i ! j = ?sc (Suc i') (Suc j')" "?B ! (i - 1) ! (j - 1) = ?sc i' j'"
      "?B ! (i - 1) ! j = ?sc i' (Suc j')" "?B ! i ! (j - 1) = ?sc (Suc i') j'"
      using assms ij by (simp_all add: buildMatrix_nth del: score.simps)
    then show ?thesis using ij by simp
  qed
  show ?thesis
    using col row inner assms by (simp add: buildMatrix_length buildMatrix_row_length)
qed

theorem buildMatrix_recurrence_witness:
  "(2::nat) \<le> length ''CA'' \<and> (2::nat) \<le> length ''GA''
   \<and> buildMatrix ''CA'' ''GA'' 1 (- 1) (- 1) = [[0, - 1, - 2], [- 1, 0, 0], [- 2, 0, 1]]
   \<and> buildMatrix ''CA'' ''GA'' 1 (- 1) (- 1) ! 2 ! 0 = 2 * (- 1)
   \<and> buildMatrix ''CA'' ''GA'' 1 (- 1) (- 1) ! 0 ! 2 = 2 * (- 1)
   \<and> buildMatrix ''CA'' ''GA'' 1 (- 1) (- 1) ! 2 ! 2
       = max (max (max (buildMatrix ''CA'' ''GA'' 1 (- 1) (- 1) ! 1 ! 1 + 1)
                       (buildMatrix ''CA'' ''GA'' 1 (- 1) (- 1) ! 1 ! 2 + (- 1)))
                  (buildMatrix ''CA'' ''GA'' 1 (- 1) (- 1) ! 2 ! 1 + (- 1))) 0"
proof -
  have m: "buildMatrix ''CA'' ''GA'' 1 (- 1) (- 1) = [[0, - 1, - 2], [- 1, 0, 0], [- 2, 0, 1]]"
    by code_simp
  have "(2::nat) \<le> length ''CA''" "(2::nat) \<le> length ''GA''" by simp_all
  from buildMatrix_recurrence[OF this, of 1 "- 1" "- 1"] m
  show ?thesis by simp
qed




text \<open>
  C4. The claim: a call with an empty input sequence fails with InvalidInput before a
  matrix is built, and a call on non-empty input never fails. Neither \<open>_buildMatrix\<close> nor
  \<open>_traceback\<close> tests its input for emptiness: on the empty sequence against \<open>A\<close> the
  matrix is the single row \<open>[0, -1]\<close> and the call returns the pair of empty strings.
\<close>

theorem pairwiseAlign_empty_input_returns:
  "buildMatrix [] ''A'' 1 (- 1) (- 1) = [[0, - 1]]
   \<and> pairwiseAlign [] ''A'' 1 (- 1) (- 1) = Inr \<lparr>seq1_aligned = [], seq2_aligned = []\<rparr>
   \<and> pairwiseAlign [] ''A'' 1 (- 1) (- 1) \<noteq> Inl InvalidInput"
  by code_simp

text \<open>
  C4 as the code has it: the pairwise aligner returns a result for every pair of
  sequences, empty or not, and raises no error; with an empty sequence and a gap score
  that is not positive the result is the pair of empty strings.
\<close>

theorem pairwiseAlign_total:
  "(\<exists>r. pairwiseAlign seq1 seq2 matchScore mismatchScore gapScore = Inr r)
   \<and> ((seq1 = [] \<or> seq2 = []) \<and> gapScore \<le> 0 \<longrightarrow>
        pairwiseAlign seq1 seq2 matchScore mismatchScore gapScore
        = Inr \<lparr>seq1_aligned = [], seq2_aligned = []\<rparr>)"
proof
  show "\<exists>r. pairwiseAlign seq1 seq2 matchScore mismatchScore gapScore = Inr r"
    by (simp add: pairwiseAlign_unfold split: prod.splits)
next
  show "(seq1 = [] \<or> seq2 = []) \<and> gapScore \<le> 0 \<longrightarrow>
        pairwiseAlign seq1 seq2 matchScore mismatchScore gapScore
        = Inr \<lparr>seq1_aligned = [], seq2_aligned = []\<rparr>"
  proof
    assume a: "(seq1 = [] \<or> seq2 = []) \<and> gapScore \<le> 0"
    have "find_max (buildMatrix seq1 seq2 matchScore mismatchScore gapScore) = (Num 0, 0, 0)"
      by (rule find_max_origin) (use a score_boundary_nonpos in blast)
    then show "pairwiseAlign seq1 seq2 matchScore mismatchScore gapScore
        = Inr \<lparr>seq1_aligned = [], seq2_aligned = []\<rparr>"
      by (simp add: pairwiseAlign_unfold walk_stop join_def)
  qed
qed

theorem pairwiseAlign_total_witness:
  "(([]::string) = [] \<or> ''A'' = []) \<and> (- 1::int) \<le> 0
   \<and> (\<exists>r. pairwiseAlign [] ''A'' 1 (- 1) (- 1) = Inr r)
   \<and> pairwiseAlign [] ''A'' 1 (- 1) (- 1) = Inr \<lparr>seq1_aligned = [], seq2_aligned = []\<rparr>"
  using pairwiseAlign_total[of "[]" "''A''" 1 "- 1" "- 1"] by simp



text \<open>
  C6. A sequence aligned against itself with scores 1, -1, -1 comes back unchanged on
  both sides: the only largest cell is the last one, every step of the walk is
  diagonal, and the gap character occurs in the result only where the sequence has it.
\<close>

theorem pairwiseAlign_self_identity:
  "\<exists>r. pairwiseAlign s s 1 (- 1) (- 1) = Inr r
     \<and> seq1_aligned r = s \<and> seq2_aligned r = s
     \<and> (CHR ''-'' \<notin> set s \<longrightarrow>
          CHR ''-'' \<notin> set (seq1_aligned r) \<and> CHR ''-'' \<notin> set (seq2_aligned r))"
proof -
  let ?n = "length s"
  have top: "score s s 1 (- 1) (- 1) ?n ?n = int ?n"
    by (rule score_diag) simp
  have lt: "score s s 1 (- 1) (- 1) i j < score s s 1 (- 1) (- 1) ?n ?n"
    if "i \<le> ?n" "j \<le> ?n" "(i, j) \<noteq> (?n, ?n)" for i j
  proof -
    have "min i j < ?n" using that by auto
    then have "int (min i j) < int ?n" by simp
    then show ?thesis using score_le_min[of s s i j] unfolding top by linarith
  qed
  have fm: "find_max (buildMatrix s s 1 (- 1) (- 1)) = (Num (int ?n), ?n, ?n)"
    using find_max_last[of s s 1 "- 1" "- 1", OF lt] unfolding top by blast
  have w: "walk s s (buildMatrix s s 1 (- 1) (- 1)) 1 (- 1) (- 1) ?n ?n [] []
           = (0, 0, map Some (rev s), map Some (rev s))"
    using walk_self[of ?n s "[]" "[]"] by simp
  have "pairwiseAlign s s 1 (- 1) (- 1) = Inr \<lparr>seq1_aligned = s, seq2_aligned = s\<rparr>"
    by (simp add: pairwiseAlign_unfold fm w rev_map[symmetric])
  then show ?thesis by simp
qed

theorem pairwiseAlign_self_identity_witness:
  "CHR ''-'' \<notin> set ''AAAA''
   \<and> (\<exists>r. pairwiseAlign ''AAAA'' ''AAAA'' 1 (- 1) (- 1) = Inr r
         \<and> seq1_aligned r = ''AAAA'' \<and> seq2_aligned r = ''AAAA''
         \<and> CHR ''-'' \<notin> set (seq1_aligned r) \<and> CHR ''-'' \<notin> set (seq2_aligned r))"
  using pairwiseAlign_self_identity[of "''AAAA''"] by auto

section \<open>Claims on the pairwise formatter\<close>

text \<open>
  C9. The claim: the symbol is a bar exactly when the two symbols of the column match, a
  space exactly when either is the gap character, and \<open>x\<close> exactly when both are no gap
  and differ. The loop tests equality first, so a column that holds the gap character
  on both sides gets the bar, not the space.
\<close>

theorem symbols_double_gap_is_bar:
  "symbols \<lparr>seq1_aligned = ''-'', seq2_aligned = ''-''\<rparr> = ''|''
   \<and> symbols \<lparr>seq1_aligned = ''-'', seq2_aligned = ''-''\<rparr> ! 0 \<noteq> CHR '' ''"
  by code_simp

text \<open>
  C9 as the code has it: for two aligned strings of equal length the track has their
  length, and at each position it holds the bar exactly when the two symbols are equal
  (two gap characters included), the space exactly when they differ and one of them is
  the gap character, and \<open>x\<close> exactly when they differ and neither is the gap character.
\<close>

theorem symbols_track:
  assumes "length (seq1_aligned alignment) = length (seq2_aligned alignment)"
    and "k < length (seq1_aligned alignment)"
  shows "length (symbols alignment) = length (seq1_aligned alignment)
    \<and> (symbols alignment ! k = CHR ''|'' \<longleftrightarrow> seq1_aligned alignment ! k = seq2_aligned alignment ! k)
    \<and> (symbols alignment ! k = CHR '' '' \<longleftrightarrow>
          seq1_aligned alignment ! k \<noteq> seq2_aligned alignment ! k
          \<and> (seq1_aligned alignment ! k = CHR ''-'' \<or> seq2_aligned alignment ! k = CHR ''-''))
    \<and> (symbols alignment ! k = CHR ''x'' \<longleftrightarrow>
          seq1_aligned alignment ! k \<noteq> seq2_aligned alignment ! k
          \<and> seq1_aligned alignment ! k \<noteq> CHR ''-'' \<and> seq2_aligned alignment ! k \<noteq> CHR ''-'')"
proof -
  have k2: "k < length (seq2_aligned alignment)" using assms by simp
  have "symbols alignment ! k
        = symbol_for (Some (seq1_aligned alignment ! k)) (Some (seq2_aligned alignment ! k))"
    using assms(2) k2 by (simp add: symbols_map char_at_def)
  then show ?thesis by (simp add: symbols_map symbol_for_def)
qed

theorem symbols_track_witness:
  "length (seq1_aligned \<lparr>seq1_aligned = ''AAGAC'', seq2_aligned = ''AA-AT''\<rparr>)
     = length (seq2_aligned \<lparr>seq1_aligned = ''AAGAC'', seq2_aligned = ''AA-AT''\<rparr>)
   \<and> (2::nat) < length (seq1_aligned \<lparr>seq1_aligned = ''AAGAC'', seq2_aligned = ''AA-AT''\<rparr>)
   \<and> symbols \<lparr>seq1_aligned = ''AAGAC'', seq2_aligned = ''AA-AT''\<rparr> = ''|| |x''
   \<and> symbols \<lparr>seq1_aligned = ''AAGAC'', seq2_aligned = ''AA-AT''\<rparr> ! 2 = CHR '' ''"
proof -
  let ?a = "\<lparr>seq1_aligned = ''AAGAC'', seq2_aligned = ''AA-AT''\<rparr>"
  have h: "length (seq1_aligned ?a) = length (seq2_aligned ?a)" "2 < length (seq1_aligned ?a)"
    by simp_all
  have e: "symbols ?a = ''|| |x''" by code_simp
  from symbols_track[OF h] h e show ?thesis by simp
qed

section \<open>Claims on the guide tree\<close>





section \<open>Claims on the multiple alignment\<close>

text \<open>
  C5. The claim: the multiple alignment of the batch \<open>AAAA\<close>, \<open>AAAA\<close>, \<open>AAAA\<close> succeeds with
  three rows \<open>AAAA\<close>. The first thing \<open>multipleSequenceAlignment\<close> does with its cleaned
  batch is to call \<open>calculateDistanceMatrix\<close>, with no handler around the call. For the
  first pair of sequences that function aligns the two and hands the object
  \<open>_traceback\<close> returns to \<open>calculateDistanceFromAlignment\<close>, which destructures it as an
  array: the call throws a TypeError, and so does the entry point. (\<open>_formatAsArray\<close>
  reads the same object by its field names.)
\<close>

theorem calculateDistanceMatrix_AAAA_throws:
  "pairwiseAlign ''AAAA'' ''AAAA'' 1 (- 1) (- 1)
     = Inr \<lparr>seq1_aligned = ''AAAA'', seq2_aligned = ''AAAA''\<rparr>
   \<and> calculateDistanceFromAlignment
        (AlignmentObject \<lparr>seq1_aligned = ''AAAA'', seq2_aligned = ''AAAA''\<rparr>) 1 (- 1) (- 1)
     = Inl TypeError
   \<and> calculateDistanceMatrix [''AAAA'', ''AAAA'', ''AAAA''] 1 (- 1) (- 1) = Inl TypeError"
  by code_simp

text \<open>On the array of the two strings the same function returns the distance 4.\<close>

lemma calculateDistanceFromAlignment_array:
  "calculateDistanceFromAlignment (StringArray [''AAAA'', ''AAAA'']) 1 (- 1) (- 1) = Inr 4"
  by code_simp

text \<open>A batch of two or more sequences never gets past the first pair.\<close>

lemma calculateDistanceMatrix_throws:
  assumes "2 \<le> length sequences"
  shows "calculateDistanceMatrix sequences matchScore mismatchScore gapScore = Inl TypeError"
proof -
  let ?n = "length sequences"
  have n0: "0 < ?n" and n1: "Suc 0 < ?n" using assms by linarith+
  have up0: "[0..<?n] = 0 # [Suc 0..<?n]"
    by (rule upt_conv_Cons[OF n0])
  have "[Suc 0..<?n] = Suc 0 # [Suc (Suc 0)..<?n]"
    by (rule upt_conv_Cons[OF n1])
  then have up1: "[0 + 1..<?n] = Suc 0 # [Suc (Suc 0)..<?n]"
    by (simp only: add_0 One_nat_def)
  have e: "distance_entry sequences matchScore mismatchScore gapScore 0 (Suc 0) dm = Inl TypeError" for dm
    by (simp add: distance_entry_def Let_def calculateDistanceFromAlignment_def
        traceback_def buildMatrix_not_empty split: prod.splits)
  have "fold_err (distance_entry sequences matchScore mismatchScore gapScore 0) [0 + 1..<?n] dm
        = Inl TypeError" for dm
    unfolding up1 by (simp only: fold_err.simps e sum.case)
  then show ?thesis
    unfolding calculateDistanceMatrix_def Let_def
    by (subst up0) (simp only: fold_err.simps sum.case)
qed

end
